theory Spec2Isabelle
  imports Main
begin

section \<open>Python text primitives used by dmem\<close>

text \<open>
  A Python \<open>str\<close> is modelled as a \<open>string\<close> whose characters are code points below 256.
  \<open>is_space\<close> is \<open>str.isspace\<close> on that range: it is the set of characters that
  \<open>str.strip()\<close> and \<open>str.split()\<close> (both without argument) remove or split at.
\<close>

definition is_space :: "char \<Rightarrow> bool" where
  "is_space c = (of_char c \<in> {9, 10, 11, 12, 13, 28, 29, 30, 31, 32, 133, 160 :: nat})"

definition py_strip :: "string \<Rightarrow> string" where
  "py_strip s = rev (dropWhile is_space (rev (dropWhile is_space s)))"

text \<open>
  \<open>str.split()\<close>: the maximal runs of non-whitespace characters, in order. The second
  argument of \<open>split_run\<close> is the run read so far.
\<close>

fun split_run :: "string \<Rightarrow> string \<Rightarrow> string list" where
  "split_run [] cur = (if cur = [] then [] else [cur])"
| "split_run (c # cs) cur =
     (if is_space c then (if cur = [] then split_run cs [] else cur # split_run cs [])
      else split_run cs (cur @ [c]))"

definition py_split :: "string \<Rightarrow> string list" where
  "py_split s = split_run s []"

datatype py_exception =
  FileNotFoundError | IsADirectoryError | PermissionError | ValueError

definition is_digit :: "char \<Rightarrow> bool" where
  "is_digit c = (48 \<le> (of_char c :: nat) \<and> (of_char c :: nat) \<le> 57)"

definition digit_value :: "char \<Rightarrow> int" where
  "digit_value c = int (of_char c) - 48"

text \<open>
  The scan of \<open>int(s)\<close> over the characters after the sign: digits, with single
  underscores allowed between two digits. It carries the previous character, the number of
  digits seen and the value read so far; \<open>None\<close> is the rejected literal.
\<close>

fun scan_digits :: "string \<Rightarrow> char \<Rightarrow> nat \<Rightarrow> int \<Rightarrow> (nat \<times> int) option" where
  "scan_digits [] prev n acc = (if prev = CHR ''_'' then None else Some (n, acc))"
| "scan_digits (c # cs) prev n acc =
     (if c = CHR ''_'' then (if prev = CHR ''_'' then None else scan_digits cs c n acc)
      else if is_digit c then scan_digits cs c (Suc n) (acc * 10 + digit_value c)
      else None)"

text \<open>
  \<open>int(s)\<close> in base 10, with \<open>ValueError\<close> as a value. The first argument is the
  interpreter's limit on the number of digits of a converted string
  (\<open>sys.get_int_max_str_digits()\<close>; 0 switches the limit off, and it only applies to
  literals of more than 640 digits).
\<close>

definition py_int :: "nat \<Rightarrow> string \<Rightarrow> py_exception + int" where
  "py_int lim s =
     (let t = py_strip s;
          neg = (t \<noteq> [] \<and> hd t = CHR ''-'');
          d = (if t \<noteq> [] \<and> (hd t = CHR ''+'' \<or> hd t = CHR ''-'') then tl t else t)
      in if d = [] \<or> hd d = CHR ''_'' then Inl ValueError
         else (case scan_digits d (CHR 0x00) 0 0 of
                 None \<Rightarrow> Inl ValueError
               | Some (n, v) \<Rightarrow>
                   if 640 < n \<and> 0 < lim \<and> lim < n then Inl ValueError
                   else Inr (if neg then - v else v)))"

section \<open>The host: files, glob and the interpreter's setting\<close>

datatype entry = Regular string | Directory | Denied

record host =
  files :: "string \<Rightarrow> entry option"
  glob :: "string \<Rightarrow> string list"
  int_max_str_digits :: nat

text \<open>
  \<open>files\<close> gives what is at a path: nothing, a regular file with its text, a directory,
  or a file that exists and cannot be opened. \<open>glob\<close> is the result of
  \<open>glob.glob(pattern, recursive=True)\<close> on the host.
\<close>

definition os_path_exists :: "host \<Rightarrow> string \<Rightarrow> bool" where
  "os_path_exists h path = (files h path \<noteq> None)"

definition os_path_join :: "string \<Rightarrow> string \<Rightarrow> string" where
  "os_path_join a b =
     (if b \<noteq> [] \<and> hd b = CHR ''/'' then b
      else if a = [] \<or> last a = CHR ''/'' then a @ b
      else a @ ''/'' @ b)"

text \<open>Text mode reads with universal newlines: CR LF and a lone CR become LF.\<close>

fun universal_newlines :: "string \<Rightarrow> string" where
  "universal_newlines [] = []"
| "universal_newlines [c] = [if c = CHR 0x0D then CHR 0x0A else c]"
| "universal_newlines (c # d # cs) =
     (if c = CHR 0x0D \<and> d = CHR 0x0A then CHR 0x0A # universal_newlines cs
      else if c = CHR 0x0D then CHR 0x0A # universal_newlines (d # cs)
      else c # universal_newlines (d # cs))"

definition open_read :: "host \<Rightarrow> string \<Rightarrow> py_exception + string" where
  "open_read h path =
     (case files h path of
        None \<Rightarrow> Inl FileNotFoundError
      | Some Directory \<Rightarrow> Inl IsADirectoryError
      | Some Denied \<Rightarrow> Inl PermissionError
      | Some (Regular text) \<Rightarrow> Inr (universal_newlines text))"

text \<open>Iterating a text file: the lines, each with its terminating LF when it has one.\<close>

fun readlines :: "string \<Rightarrow> string list" where
  "readlines [] = []"
| "readlines (c # cs) =
     (if c = CHR 0x0A then [c] # readlines cs
      else (case readlines cs of [] \<Rightarrow> [[c]] | l # ls \<Rightarrow> (c # l) # ls))"

section \<open>dmem\<close>

definition get_cgroup_version :: "host \<Rightarrow> int" where
  "get_cgroup_version h =
     (if os_path_exists h ''/sys/fs/cgroup/cgroup.controllers'' then 2 else 1)"

text \<open>The body of the \<open>try\<close> of \<open>read_cgroup_file\<close>, and the function with its handler.\<close>

definition read_cgroup_file_try :: "host \<Rightarrow> string \<Rightarrow> py_exception + int option" where
  "read_cgroup_file_try h path =
     (case open_read h path of
        Inl e \<Rightarrow> Inl e
      | Inr text \<Rightarrow>
          (let content = py_strip text
           in if content = ''max'' then Inr None
              else (case py_int (int_max_str_digits h) content of
                      Inl e \<Rightarrow> Inl e
                    | Inr v \<Rightarrow> Inr (Some v))))"

definition read_cgroup_file :: "host \<Rightarrow> string \<Rightarrow> int option" where
  "read_cgroup_file h path =
     (case read_cgroup_file_try h path of Inl e \<Rightarrow> None | Inr r \<Rightarrow> r)"

text \<open>
  The loop of \<open>read_cgroup_stat_file\<close> over the lines of the file. It returns the
  dictionary as it stands when the loop ends, and the exception that ended it, if one did.
\<close>

fun stat_lines ::
  "nat \<Rightarrow> string list \<Rightarrow> (string \<rightharpoonup> int) \<Rightarrow> (string \<rightharpoonup> int) \<times> py_exception option" where
  "stat_lines lim [] stats = (stats, None)"
| "stat_lines lim (line # rest) stats =
     (case py_split (py_strip line) of
        [key, val] \<Rightarrow>
          (case py_int lim val of
             Inl e \<Rightarrow> (stats, Some e)
           | Inr v \<Rightarrow> stat_lines lim rest (stats(key \<mapsto> v)))
      | _ \<Rightarrow> stat_lines lim rest stats)"

definition read_cgroup_stat_file :: "host \<Rightarrow> string \<Rightarrow> (string \<rightharpoonup> int)" where
  "read_cgroup_stat_file h path =
     (case open_read h path of
        Inl e \<Rightarrow> Map.empty
      | Inr text \<Rightarrow> fst (stat_lines (int_max_str_digits h) (readlines text) Map.empty))"

record memory_stats =
  ram :: "int option"
  swap :: "int option"
  limit :: "int option"
  swaplimit :: "int option"
  anon :: "int option"
  file_field :: "int option"
  shmem :: "int option"
  rss :: "int option"

definition get_memory_stats_v1 :: "host \<Rightarrow> string \<Rightarrow> memory_stats" where
  "get_memory_stats_v1 h container_id =
     (let base_path = ''/sys/fs/cgroup/memory/docker/'' @ container_id;
          mem = read_cgroup_file h (os_path_join base_path ''memory.usage_in_bytes'');
          memsw = read_cgroup_file h (os_path_join base_path ''memory.memsw.usage_in_bytes'');
          mem_limit = read_cgroup_file h (os_path_join base_path ''memory.limit_in_bytes'');
          memsw_limit =
            read_cgroup_file h (os_path_join base_path ''memory.memsw.limit_in_bytes'');
          swp = (case (mem, memsw) of (Some m, Some ms) \<Rightarrow> Some (ms - m) | _ \<Rightarrow> None);
          swap_limit =
            (case (memsw_limit, mem_limit) of
               (Some msl, Some ml) \<Rightarrow> Some (msl - ml)
             | _ \<Rightarrow> None);
          stat = read_cgroup_stat_file h (os_path_join base_path ''memory.stat'')
      in \<lparr>ram = mem, swap = swp, limit = mem_limit, swaplimit = swap_limit,
          anon = stat ''anon'', file_field = stat ''file'', shmem = stat ''shmem'',
          rss = stat ''rss''\<rparr>)"

definition find_cgroup_path_v2 :: "host \<Rightarrow> string \<Rightarrow> string option" where
  "find_cgroup_path_v2 h container_id =
     (let pattern = ''/sys/fs/cgroup/**/docker-'' @ container_id @ ''.scope''
      in case glob h pattern of [] \<Rightarrow> None | m # _ \<Rightarrow> Some m)"

text \<open>\<open>not base_path\<close> holds for \<open>None\<close> and for the empty string.\<close>

definition get_memory_stats_v2 :: "host \<Rightarrow> string \<Rightarrow> memory_stats" where
  "get_memory_stats_v2 h container_id =
     (case find_cgroup_path_v2 h container_id of
        None \<Rightarrow>
          \<lparr>ram = None, swap = None, limit = None, swaplimit = None,
           anon = None, file_field = None, shmem = None, rss = None\<rparr>
      | Some base_path \<Rightarrow>
          if base_path = [] then
            \<lparr>ram = None, swap = None, limit = None, swaplimit = None,
             anon = None, file_field = None, shmem = None, rss = None\<rparr>
          else
            (let mem = read_cgroup_file h (os_path_join base_path ''memory.current'');
                 swap_path = os_path_join base_path ''memory.swap.current'';
                 swp = (if os_path_exists h swap_path then read_cgroup_file h swap_path
                        else None);
                 mem_limit = read_cgroup_file h (os_path_join base_path ''memory.max'');
                 swap_limit_path = os_path_join base_path ''memory.swap.max'';
                 swap_limit =
                   (if os_path_exists h swap_limit_path
                    then read_cgroup_file h swap_limit_path else None);
                 stat = read_cgroup_stat_file h (os_path_join base_path ''memory.stat'')
             in \<lparr>ram = mem, swap = swp, limit = mem_limit, swaplimit = swap_limit,
                 anon = stat ''anon'', file_field = stat ''file'', shmem = stat ''shmem'',
                 rss = stat ''rss''\<rparr>))"

text \<open>
  The loop of \<open>main\<close> that builds the rows. A container is the dictionary with the keys
  \<open>id\<close> and \<open>name\<close> that \<open>get_all_containers\<close> builds; a row is the dictionary of the
  loop, the six columns of \<open>--details\<close> being absent without the option.
  \<open>format_bytes\<close> prints with floating point and is a parameter here.
\<close>

record container_ref =
  ref_id :: string
  ref_name :: string

record row =
  row_container :: string
  row_id :: string
  row_ram :: string
  row_ram_raw :: "int option"
  row_swap :: string
  row_swap_raw :: "int option"
  row_limit :: "string option"
  row_swaplimit :: "string option"
  row_anon :: "string option"
  row_file :: "string option"
  row_shmem :: "string option"
  row_rss :: "string option"

definition collect_stats :: "host \<Rightarrow> int \<Rightarrow> string \<Rightarrow> memory_stats" where
  "collect_stats h cgroup_version container_id =
     (if cgroup_version = 1 then get_memory_stats_v1 h container_id
      else get_memory_stats_v2 h container_id)"

definition make_row ::
  "host \<Rightarrow> (int option \<Rightarrow> string) \<Rightarrow> int \<Rightarrow> bool \<Rightarrow> container_ref \<Rightarrow> row" where
  "make_row h format_bytes cgroup_version details container =
     (let cid = take 12 (ref_id container);
          name = ref_name container;
          stats = collect_stats h cgroup_version (ref_id container);
          shown = (\<lambda>v. if details then Some (format_bytes v) else None)
      in \<lparr>row_container = name, row_id = cid,
          row_ram = format_bytes (ram stats), row_ram_raw = ram stats,
          row_swap = format_bytes (swap stats), row_swap_raw = swap stats,
          row_limit = shown (limit stats), row_swaplimit = shown (swaplimit stats),
          row_anon = shown (anon stats), row_file = shown (file_field stats),
          row_shmem = shown (shmem stats), row_rss = shown (rss stats)\<rparr>)"

fun build_rows ::
  "host \<Rightarrow> (int option \<Rightarrow> string) \<Rightarrow> int \<Rightarrow> bool \<Rightarrow> container_ref list \<Rightarrow> row list
     \<Rightarrow> row list" where
  "build_rows h format_bytes cgroup_version details [] rows = rows"
| "build_rows h format_bytes cgroup_version details (container # rest) rows =
     build_rows h format_bytes cgroup_version details rest
       (rows @ [make_row h format_bytes cgroup_version details container])"

definition main_rows ::
  "host \<Rightarrow> (int option \<Rightarrow> string) \<Rightarrow> bool \<Rightarrow> container_ref list \<Rightarrow> row list" where
  "main_rows h format_bytes details containers =
     build_rows h format_bytes (get_cgroup_version h) details containers []"

section \<open>Notions of the specification\<close>

text \<open>
  A line of a keyed stat file is well formed when it has exactly two tokens and the second
  is an integer literal; \<open>line_entry\<close> is then its key and value. \<open>bad_value\<close> is a line
  of two tokens whose second is not an integer literal. \<open>entries_of\<close> is the mapping that
  holds the entries of all the well-formed lines of a list (a later line with the same key
  replaces an earlier one).
\<close>

definition line_entry :: "nat \<Rightarrow> string \<Rightarrow> (string \<times> int) option" where
  "line_entry lim line =
     (case py_split (py_strip line) of
        [key, val] \<Rightarrow> (case py_int lim val of Inl e \<Rightarrow> None | Inr v \<Rightarrow> Some (key, v))
      | _ \<Rightarrow> None)"

definition bad_value :: "nat \<Rightarrow> string \<Rightarrow> bool" where
  "bad_value lim line =
     (case py_split (py_strip line) of
        [key, val] \<Rightarrow> (case py_int lim val of Inl e \<Rightarrow> True | Inr v \<Rightarrow> False)
      | _ \<Rightarrow> False)"

definition entries_of :: "nat \<Rightarrow> string list \<Rightarrow> (string \<rightharpoonup> int)" where
  "entries_of lim ls = map_of (rev (List.map_filter (line_entry lim) ls))"

text \<open>The decimal numeral of a natural number, without sign or leading zeros.\<close>

fun decimal :: "nat \<Rightarrow> string" where
  "decimal n =
     (if n < 10 then [char_of (48 + n)]
      else decimal (n div 10) @ [char_of (48 + n mod 10)])"

declare decimal.simps [simp del]

text \<open>A field is absent or not negative; the presence pattern of a record.\<close>

definition nonneg_field :: "int option \<Rightarrow> bool" where
  "nonneg_field x = (case x of None \<Rightarrow> True | Some v \<Rightarrow> 0 \<le> v)"

definition presence :: "memory_stats \<Rightarrow> bool list" where
  "presence s =
     [ram s \<noteq> None, swap s \<noteq> None, limit s \<noteq> None, swaplimit s \<noteq> None,
      anon s \<noteq> None, file_field s \<noteq> None, shmem s \<noteq> None, rss s \<noteq> None]"

text \<open>The paths that the collectors read below a container's directory.\<close>

definition v1_paths :: "string \<Rightarrow> string list" where
  "v1_paths container_id =
     map (os_path_join (''/sys/fs/cgroup/memory/docker/'' @ container_id))
       [''memory.usage_in_bytes'', ''memory.memsw.usage_in_bytes'',
        ''memory.limit_in_bytes'', ''memory.memsw.limit_in_bytes'', ''memory.stat'']"

definition v2_paths :: "string \<Rightarrow> string list" where
  "v2_paths base_path =
     map (os_path_join base_path)
       [''memory.current'', ''memory.swap.current'', ''memory.max'', ''memory.swap.max'',
        ''memory.stat'']"

section \<open>Example hosts\<close>

definition no_files :: "string \<Rightarrow> entry option" where
  "no_files = (\<lambda>p. None)"

definition no_glob :: "string \<Rightarrow> string list" where
  "no_glob = (\<lambda>p. [])"

text \<open>A cgroup v1 host with one container \<open>c1\<close>: 100 MB of RAM, 150 MB of RAM and swap.\<close>

definition host_v1 :: host where
  "host_v1 =
     \<lparr>files = no_files
        (''/sys/fs/cgroup/memory/docker/c1/memory.usage_in_bytes'' \<mapsto> Regular ''104857600\<newline>'',
         ''/sys/fs/cgroup/memory/docker/c1/memory.memsw.usage_in_bytes'' \<mapsto>
           Regular ''157286400\<newline>'',
         ''/sys/fs/cgroup/memory/docker/c1/memory.limit_in_bytes'' \<mapsto>
           Regular ''268435456\<newline>'',
         ''/sys/fs/cgroup/memory/docker/c1/memory.memsw.limit_in_bytes'' \<mapsto>
           Regular ''536870912\<newline>'',
         ''/sys/fs/cgroup/memory/docker/c1/memory.stat'' \<mapsto>
           Regular ''cache 4096\<newline>rss 8192\<newline>shmem 0\<newline>''),
      glob = no_glob, int_max_str_digits = 4300\<rparr>"

text \<open>
  The same container when the two usage files are read across a change of the workload:
  the RAM read is larger than the combined read.
\<close>

definition host_v1_race :: host where
  "host_v1_race =
     \<lparr>files = no_files
        (''/sys/fs/cgroup/memory/docker/c1/memory.usage_in_bytes'' \<mapsto> Regular ''200\<newline>'',
         ''/sys/fs/cgroup/memory/docker/c1/memory.memsw.usage_in_bytes'' \<mapsto> Regular ''100\<newline>''),
      glob = no_glob, int_max_str_digits = 4300\<rparr>"

text \<open>A stat file whose first line has a value that is not an integer.\<close>

definition host_bad_stat :: host where
  "host_bad_stat =
     \<lparr>files = no_files
        (''/sys/fs/cgroup/memory/docker/c1/memory.stat'' \<mapsto>
           Regular ''anon 5\<newline>total\<newline>file x\<newline>rss 7\<newline>''),
      glob = no_glob, int_max_str_digits = 4300\<rparr>"

text \<open>A cgroup v2 host with one container \<open>c2\<close> below a systemd slice.\<close>

definition host_v2 :: host where
  "host_v2 =
     \<lparr>files = no_files
        (''/sys/fs/cgroup/cgroup.controllers'' \<mapsto> Regular ''cpu memory\<newline>'',
         ''/sys/fs/cgroup/system.slice/docker-c2.scope'' \<mapsto> Directory,
         ''/sys/fs/cgroup/system.slice/docker-c2.scope/memory.current'' \<mapsto>
           Regular ''104857600\<newline>'',
         ''/sys/fs/cgroup/system.slice/docker-c2.scope/memory.swap.current'' \<mapsto>
           Regular ''0\<newline>'',
         ''/sys/fs/cgroup/system.slice/docker-c2.scope/memory.max'' \<mapsto> Regular ''max\<newline>'',
         ''/sys/fs/cgroup/system.slice/docker-c2.scope/memory.stat'' \<mapsto>
           Regular ''anon 4096\<newline>file 8192\<newline>shmem 0\<newline>''),
      glob = no_glob
        (''/sys/fs/cgroup/**/docker-c2.scope'' :=
           [''/sys/fs/cgroup/system.slice/docker-c2.scope'']),
      int_max_str_digits = 4300\<rparr>"

section \<open>Lemmas on the text primitives and the readers\<close>

subsection \<open>Characters and tokens\<close>

lemma set_py_strip: "set (py_strip s) \<subseteq> set s"
proof
  fix x
  assume "x \<in> set (py_strip s)"
  then have "x \<in> set (dropWhile is_space (rev (dropWhile is_space s)))"
    by (simp add: py_strip_def)
  then have "x \<in> set (rev (dropWhile is_space s))" by (rule set_dropWhileD)
  then have "x \<in> set (dropWhile is_space s)" by simp
  then show "x \<in> set s" by (rule set_dropWhileD)
qed

lemma set_split_run: "t \<in> set (split_run s cur) \<Longrightarrow> set t \<subseteq> set s \<union> set cur"
  by (induction s cur rule: split_run.induct) (auto split: if_splits)

lemma set_py_split: "t \<in> set (py_split s) \<Longrightarrow> set t \<subseteq> set s"
  using set_split_run [of t s "[]"] by (simp add: py_split_def)

lemma set_universal_newlines: "set (universal_newlines s) \<subseteq> insert (CHR 0x0A) (set s)"
  by (induction s rule: universal_newlines.induct) auto

lemma set_readlines: "l \<in> set (readlines s) \<Longrightarrow> set l \<subseteq> set s"
proof (induction s arbitrary: l)
  case Nil
  then show ?case by simp
next
  case (Cons c cs)
  show ?case
  proof (cases "c = CHR 0x0A")
    case True
    with Cons show ?thesis by auto
  next
    case False
    show ?thesis
    proof (cases "readlines cs")
      case Nil
      with False Cons.prems show ?thesis by simp
    next
      case (Cons l0 ls)
      with False Cons.prems have "l = c # l0 \<or> l \<in> set ls" by simp
      moreover have "set l0 \<subseteq> set cs" using Cons.IH [of l0] Cons by simp
      moreover have "l \<in> set ls \<Longrightarrow> set l \<subseteq> set cs" using Cons.IH [of l] Cons by simp
      ultimately show ?thesis by auto
    qed
  qed
qed

subsection \<open>Integer literals\<close>

lemma digit_value_nonneg: "is_digit c \<Longrightarrow> 0 \<le> digit_value c"
  by (simp add: is_digit_def digit_value_def)

lemma scan_digits_nonneg:
  "scan_digits s prev n acc = Some (m, v) \<Longrightarrow> 0 \<le> acc \<Longrightarrow> 0 \<le> v"
proof (induction s arbitrary: prev n acc)
  case Nil
  then show ?case by (simp split: if_splits)
next
  case (Cons c cs)
  show ?case
  proof (cases "c = CHR ''_''")
    case True
    with Cons.prems Cons.IH [of c n acc] show ?thesis by (simp split: if_splits)
  next
    case False
    with Cons.prems have d: "is_digit c"
      and s: "scan_digits cs c (Suc n) (acc * 10 + digit_value c) = Some (m, v)"
      by (simp_all split: if_splits)
    from d Cons.prems(2) have "0 \<le> acc * 10 + digit_value c"
      using digit_value_nonneg [of c] by simp
    with s show ?thesis by (rule Cons.IH)
  qed
qed

lemma py_int_nonneg:
  assumes "py_int lim s = Inr v" and "CHR ''-'' \<notin> set s"
  shows "0 \<le> v"
proof -
  have "py_strip s = [] \<or> hd (py_strip s) \<in> set s"
    using set_py_strip [of s] by (cases "py_strip s") auto
  with assms(2) have nn: "\<not> (py_strip s \<noteq> [] \<and> hd (py_strip s) = CHR ''-'')" by auto
  from assms(1) nn obtain d n where "scan_digits d (CHR 0x00) 0 0 = Some (n, v)"
    by (auto simp: py_int_def Let_def split: if_splits option.splits)
  then show ?thesis by (rule scan_digits_nonneg) simp
qed

subsection \<open>The loop over the lines of a stat file\<close>

lemma stat_lines_skip:
  "line_entry lim line = None \<Longrightarrow> \<not> bad_value lim line \<Longrightarrow>
   stat_lines lim (line # rest) stats = stat_lines lim rest stats"
  by (simp add: line_entry_def bad_value_def split: list.splits sum.splits)

lemma stat_lines_store:
  "line_entry lim line = Some (k, v) \<Longrightarrow>
   stat_lines lim (line # rest) stats = stat_lines lim rest (stats(k \<mapsto> v))"
  by (simp add: line_entry_def split: list.splits sum.splits)

lemma stat_lines_stop:
  "bad_value lim line \<Longrightarrow> stat_lines lim (line # rest) stats = (stats, Some ValueError)"
  by (auto simp: bad_value_def py_int_def Let_def split: list.splits sum.splits if_splits option.splits)

lemma bad_value_no_entry: "bad_value lim line \<Longrightarrow> line_entry lim line = None"
  by (simp add: line_entry_def bad_value_def split: list.splits sum.splits)

lemma entries_of_Nil: "entries_of lim [] = Map.empty"
  by (simp add: entries_of_def map_filter_simps)

lemma entries_of_skip:
  "line_entry lim line = None \<Longrightarrow> entries_of lim (line # rest) = entries_of lim rest"
  by (simp add: entries_of_def map_filter_simps)

lemma entries_of_store:
  "line_entry lim line = Some (k, v) \<Longrightarrow>
   stats ++ entries_of lim (line # rest) = stats(k \<mapsto> v) ++ entries_of lim rest"
  by (rule ext) (simp add: entries_of_def map_filter_simps map_add_def split: option.splits)

lemma stat_lines_good:
  "\<forall>l \<in> set ls. \<not> bad_value lim l \<Longrightarrow>
   stat_lines lim ls stats = (stats ++ entries_of lim ls, None)"
proof (induction ls arbitrary: stats)
  case Nil
  then show ?case by (simp add: entries_of_Nil)
next
  case (Cons line rest)
  then have nb: "\<not> bad_value lim line" and rest: "\<forall>l \<in> set rest. \<not> bad_value lim l"
    by simp_all
  show ?case
  proof (cases "line_entry lim line")
    case None
    have "stat_lines lim (line # rest) stats = stat_lines lim rest stats"
      using None nb by (rule stat_lines_skip)
    also have "\<dots> = (stats ++ entries_of lim rest, None)"
      using rest by (rule Cons.IH)
    finally show ?thesis by (simp only: entries_of_skip [OF None])
  next
    case (Some kv)
    obtain k v where "kv = (k, v)" by (cases kv)
    with Some have e: "line_entry lim line = Some (k, v)" by simp
    have "stat_lines lim (line # rest) stats = stat_lines lim rest (stats(k \<mapsto> v))"
      using e by (rule stat_lines_store)
    also have "\<dots> = (stats(k \<mapsto> v) ++ entries_of lim rest, None)"
      using rest by (rule Cons.IH)
    finally show ?thesis by (simp only: entries_of_store [OF e])
  qed
qed

lemma stat_lines_bad:
  "\<forall>l \<in> set pre. \<not> bad_value lim l \<Longrightarrow> bad_value lim bad \<Longrightarrow>
   stat_lines lim (pre @ bad # post) stats = (stats ++ entries_of lim pre, Some ValueError)"
proof (induction pre arbitrary: stats)
  case Nil
  then show ?case by (simp only: append_Nil stat_lines_stop entries_of_Nil map_add_empty)
next
  case (Cons line rest)
  then have nb: "\<not> bad_value lim line" and rest: "\<forall>l \<in> set rest. \<not> bad_value lim l"
    by simp_all
  note bad = Cons.prems(2)
  show ?case
  proof (cases "line_entry lim line")
    case None
    have "stat_lines lim ((line # rest) @ bad # post) stats =
        stat_lines lim (rest @ bad # post) stats"
      using stat_lines_skip [OF None nb] by simp
    also have "\<dots> = (stats ++ entries_of lim rest, Some ValueError)"
      using rest bad by (rule Cons.IH)
    finally show ?thesis by (simp only: entries_of_skip [OF None])
  next
    case (Some kv)
    obtain k v where "kv = (k, v)" by (cases kv)
    with Some have e: "line_entry lim line = Some (k, v)" by simp
    have "stat_lines lim ((line # rest) @ bad # post) stats =
        stat_lines lim (rest @ bad # post) (stats(k \<mapsto> v))"
      using stat_lines_store [OF e] by simp
    also have "\<dots> = (stats(k \<mapsto> v) ++ entries_of lim rest, Some ValueError)"
      using rest bad by (rule Cons.IH)
    finally show ?thesis by (simp only: entries_of_store [OF e])
  qed
qed

lemma entries_of_SomeD:
  assumes "entries_of lim ls k = Some v"
  shows "\<exists>l \<in> set ls. line_entry lim l = Some (k, v)"
proof -
  from assms have "(k, v) \<in> set (rev (List.map_filter (line_entry lim) ls))"
    unfolding entries_of_def by (rule map_of_SomeD)
  then obtain l where "l \<in> set ls" and "line_entry lim l = Some (k, v)"
    by (auto simp: map_filter_def)
  then show ?thesis by blast
qed

lemma stat_lines_takeWhile:
  "fst (stat_lines lim ls stats) =
   stats ++ entries_of lim (takeWhile (\<lambda>l. \<not> bad_value lim l) ls)"
proof (cases "dropWhile (\<lambda>l. \<not> bad_value lim l) ls")
  case Nil
  then have all: "\<forall>l \<in> set ls. \<not> bad_value lim l"
    by (simp add: dropWhile_eq_Nil_conv)
  then have tw: "takeWhile (\<lambda>l. \<not> bad_value lim l) ls = ls"
    by (simp add: takeWhile_eq_all_conv)
  show ?thesis by (simp only: tw stat_lines_good [OF all] fst_conv)
next
  case (Cons bad post)
  let ?pre = "takeWhile (\<lambda>l. \<not> bad_value lim l) ls"
  have split: "ls = ?pre @ bad # post"
    using takeWhile_dropWhile_id [of "\<lambda>l. \<not> bad_value lim l" ls] Cons by simp
  have pre: "\<forall>l \<in> set ?pre. \<not> bad_value lim l"
    by (auto dest: set_takeWhileD)
  have bad: "bad_value lim bad"
    using hd_dropWhile [of "\<lambda>l. \<not> bad_value lim l" ls] Cons by simp
  have "fst (stat_lines lim (?pre @ bad # post) stats) = stats ++ entries_of lim ?pre"
    using stat_lines_bad [OF pre bad, of post stats] by simp
  with split show ?thesis by simp
qed

lemma read_cgroup_stat_file_Regular:
  "files h path = Some (Regular text) \<Longrightarrow>
   read_cgroup_stat_file h path =
     fst (stat_lines (int_max_str_digits h) (readlines (universal_newlines text)) Map.empty)"
  by (simp add: read_cgroup_stat_file_def open_read_def)

subsection \<open>Decimal numerals\<close>

lemma is_digit_not_space: "is_digit c \<Longrightarrow> \<not> is_space c"
  by (auto simp: is_digit_def is_space_def)

lemma is_digit_not_sign:
  "is_digit c \<Longrightarrow> c \<noteq> CHR ''_'' \<and> c \<noteq> CHR ''+'' \<and> c \<noteq> CHR ''-''"
  by (auto simp: is_digit_def)

lemma digit_char: "k < 10 \<Longrightarrow> is_digit (char_of (48 + k)) \<and> digit_value (char_of (48 + k)) = int k"
  by (simp add: is_digit_def digit_value_def)

lemma decimal_nonempty: "decimal n \<noteq> []"
  by (subst decimal.simps) simp

lemma decimal_digits: "c \<in> set (decimal n) \<Longrightarrow> is_digit c"
proof (induction n arbitrary: c rule: decimal.induct)
  case (1 n)
  show ?case
  proof (cases "n < 10")
    case True
    with "1.prems" have "c = char_of (48 + n)" by (subst (asm) decimal.simps) simp
    with True show ?thesis by (simp add: digit_char)
  next
    case False
    with "1.prems" have "c \<in> set (decimal (n div 10)) \<or> c = char_of (48 + n mod 10)"
      by (subst (asm) decimal.simps) auto
    then show ?thesis
    proof
      assume "c \<in> set (decimal (n div 10))"
      with False show ?thesis by (rule "1.IH")
    next
      assume "c = char_of (48 + n mod 10)"
      then show ?thesis by (simp add: digit_char)
    qed
  qed
qed

lemma foldl_decimal:
  "foldl (\<lambda>a c. a * 10 + digit_value c) 0 (decimal n) = int n"
proof (induction n rule: decimal.induct)
  case (1 n)
  show ?case
  proof (cases "n < 10")
    case True
    then show ?thesis by (subst decimal.simps) (simp add: digit_char)
  next
    case False
    have "foldl (\<lambda>a c. a * 10 + digit_value c) 0 (decimal n) =
        foldl (\<lambda>a c. a * 10 + digit_value c) 0 (decimal (n div 10)) * 10 +
        digit_value (char_of (48 + n mod 10))"
      using False by (subst decimal.simps) simp
    also have "\<dots> = int (n div 10) * 10 + int (n mod 10)"
      using "1.IH" [OF False] by (simp add: digit_char)
    also have "\<dots> = int n" by (simp add: zdiv_int zmod_int)
    finally show ?thesis .
  qed
qed

lemma length_decimal: "n < 10 ^ k \<Longrightarrow> 0 < k \<Longrightarrow> length (decimal n) \<le> k"
proof (induction n arbitrary: k rule: decimal.induct)
  case (1 n)
  show ?case
  proof (cases "n < 10")
    case True
    with "1.prems" show ?thesis by (subst decimal.simps) simp
  next
    case False
    obtain j where k: "k = Suc j" using "1.prems"(2) by (cases k) auto
    from False "1.prems"(1) k have "0 < j" by (cases j) auto
    moreover from "1.prems"(1) k have "n div 10 < 10 ^ j"
      by (simp add: less_mult_imp_div_less mult.commute)
    ultimately have "length (decimal (n div 10)) \<le> j" using "1.IH" [OF False] by simp
    with False k show ?thesis by (subst decimal.simps) simp
  qed
qed

lemma scan_digits_all:
  "\<forall>c \<in> set ds. is_digit c \<Longrightarrow> ds \<noteq> [] \<or> prev \<noteq> CHR ''_'' \<Longrightarrow>
   scan_digits ds prev k acc =
     Some (k + length ds, foldl (\<lambda>a c. a * 10 + digit_value c) acc ds)"
proof (induction ds arbitrary: prev k acc)
  case Nil
  then show ?case by simp
next
  case (Cons c cs)
  then have d: "is_digit c" and rest: "\<forall>c \<in> set cs. is_digit c" by simp_all
  from d have nu: "c \<noteq> CHR ''_''" by (simp add: is_digit_not_sign)
  then have "cs \<noteq> [] \<or> c \<noteq> CHR ''_''" by simp
  with rest have "scan_digits cs c (Suc k) (acc * 10 + digit_value c) =
      Some (Suc k + length cs,
        foldl (\<lambda>a c. a * 10 + digit_value c) (acc * 10 + digit_value c) cs)"
    by (rule Cons.IH)
  with d nu show ?case by simp
qed

lemma py_strip_id:
  assumes "s \<noteq> []" and "\<not> is_space (hd s)" and "\<not> is_space (last s)"
  shows "py_strip s = s"
proof -
  have a: "dropWhile is_space s = s"
    using assms(1,2) by (cases s) simp_all
  have "rev s \<noteq> []" and "\<not> is_space (hd (rev s))"
    using assms(1,3) by (simp_all add: hd_rev)
  then have b: "dropWhile is_space (rev s) = rev s" by (cases "rev s") simp_all
  show ?thesis by (simp add: py_strip_def a b)
qed

lemma py_strip_decimal: "py_strip (decimal n) = decimal n"
proof (rule py_strip_id)
  show ne: "decimal n \<noteq> []" by (rule decimal_nonempty)
  from ne have "hd (decimal n) \<in> set (decimal n)" by simp
  then show "\<not> is_space (hd (decimal n))"
    by (intro is_digit_not_space decimal_digits)
  from ne have "last (decimal n) \<in> set (decimal n)" by simp
  then show "\<not> is_space (last (decimal n))"
    by (intro is_digit_not_space decimal_digits)
qed

lemma py_int_decimal:
  assumes "length (decimal n) \<le> 640 \<or> lim = 0 \<or> length (decimal n) \<le> lim"
  shows "py_int lim (decimal n) = Inr (int n)"
proof -
  have ne: "decimal n \<noteq> []" by (rule decimal_nonempty)
  then have "hd (decimal n) \<in> set (decimal n)" by simp
  then have "is_digit (hd (decimal n))" by (rule decimal_digits)
  then have hd: "hd (decimal n) \<noteq> CHR ''_''" "hd (decimal n) \<noteq> CHR ''+''"
    "hd (decimal n) \<noteq> CHR ''-''"
    by (simp_all add: is_digit_not_sign)
  have "scan_digits (decimal n) (CHR 0x00) 0 0 =
      Some (0 + length (decimal n),
        foldl (\<lambda>a c. a * 10 + digit_value c) 0 (decimal n))"
    using decimal_digits ne by (intro scan_digits_all) auto
  then have scan: "scan_digits (decimal n) (CHR 0x00) 0 0 = Some (length (decimal n), int n)"
    by (simp add: foldl_decimal)
  from assms have lim: "\<not> (640 < length (decimal n) \<and> 0 < lim \<and> lim < length (decimal n))"
    by auto
  show ?thesis
    unfolding py_int_def py_strip_decimal Let_def using ne hd scan lim by simp
qed

lemma read_cgroup_file_Regular:
  "files h path = Some (Regular text) \<Longrightarrow>
   read_cgroup_file h path =
     (if py_strip (universal_newlines text) = ''max'' then None
      else (case py_int (int_max_str_digits h) (py_strip (universal_newlines text)) of
              Inl e \<Rightarrow> None
            | Inr v \<Rightarrow> Some v))"
  by (simp add: read_cgroup_file_def read_cgroup_file_try_def open_read_def Let_def
      split: sum.splits)

lemma read_cgroup_file_unreadable:
  "files h path = None \<or> files h path = Some Directory \<or> files h path = Some Denied \<Longrightarrow>
   read_cgroup_file h path = None"
  by (auto simp: read_cgroup_file_def read_cgroup_file_try_def open_read_def)

section \<open>The claims\<close>

text \<open>
  Claim C1, as the code has it. \<open>read_cgroup_stat_file\<close> skips every line that does not
  have exactly two tokens, wherever it stands, and parses the lines around it. A line of two
  tokens whose value is not an integer literal is not skipped: the exception leaves the loop,
  so the returned mapping holds exactly the entries of the well-formed lines before the
  first such line, a later line replacing an earlier one with the same key. When the file
  has no such line, the mapping holds the entries of all its well-formed lines. A missing
  file gives the empty mapping.
\<close>

theorem read_cgroup_stat_file_entries:
  "(files h path = Some (Regular text) \<longrightarrow>
      read_cgroup_stat_file h path =
        entries_of (int_max_str_digits h)
          (takeWhile (\<lambda>l. \<not> bad_value (int_max_str_digits h) l)
             (readlines (universal_newlines text)))) \<and>
   (files h path = Some (Regular text) \<longrightarrow>
      (\<forall>l \<in> set (readlines (universal_newlines text)).
          \<not> bad_value (int_max_str_digits h) l) \<longrightarrow>
      read_cgroup_stat_file h path =
        entries_of (int_max_str_digits h) (readlines (universal_newlines text))) \<and>
   (files h path = None \<longrightarrow> read_cgroup_stat_file h path = Map.empty)"
proof (intro conjI impI)
  assume f: "files h path = Some (Regular text)"
  show "read_cgroup_stat_file h path =
      entries_of (int_max_str_digits h)
        (takeWhile (\<lambda>l. \<not> bad_value (int_max_str_digits h) l)
           (readlines (universal_newlines text)))"
    by (simp only: read_cgroup_stat_file_Regular [OF f] stat_lines_takeWhile empty_map_add)
next
  assume f: "files h path = Some (Regular text)"
    and all: "\<forall>l \<in> set (readlines (universal_newlines text)).
      \<not> bad_value (int_max_str_digits h) l"
  show "read_cgroup_stat_file h path =
      entries_of (int_max_str_digits h) (readlines (universal_newlines text))"
    by (simp only: read_cgroup_stat_file_Regular [OF f] stat_lines_good [OF all] fst_conv
        empty_map_add)
next
  assume "files h path = None"
  then show "read_cgroup_stat_file h path = Map.empty"
    by (simp add: read_cgroup_stat_file_def open_read_def)
qed

theorem read_cgroup_stat_file_entries_witness:
  "files host_v1 ''/sys/fs/cgroup/memory/docker/c1/memory.stat'' =
     Some (Regular ''cache 4096\<newline>rss 8192\<newline>shmem 0\<newline>'') \<and>
   \<not> bad_value 4300 ''cache 4096\<newline>'' \<and> \<not> bad_value 4300 ''rss 8192\<newline>'' \<and>
   \<not> bad_value 4300 ''shmem 0\<newline>'' \<and>
   read_cgroup_stat_file host_v1 ''/sys/fs/cgroup/memory/docker/c1/memory.stat'' =
     entries_of 4300 [''cache 4096\<newline>'', ''rss 8192\<newline>'', ''shmem 0\<newline>''] \<and>
   entries_of 4300 [''cache 4096\<newline>'', ''rss 8192\<newline>'', ''shmem 0\<newline>''] ''rss'' = Some 8192 \<and>
   files host_v1 ''/nowhere'' = None \<and>
   read_cgroup_stat_file host_v1 ''/nowhere'' ''rss'' = None"
proof -
  let ?p = "''/sys/fs/cgroup/memory/docker/c1/memory.stat''"
  let ?t = "''cache 4096\<newline>rss 8192\<newline>shmem 0\<newline>''"
  have f: "files host_v1 ?p = Some (Regular ?t)" by code_simp
  have lim: "int_max_str_digits host_v1 = 4300" by (simp add: host_v1_def)
  have ls: "readlines (universal_newlines ?t) =
      [''cache 4096\<newline>'', ''rss 8192\<newline>'', ''shmem 0\<newline>'']" by code_simp
  have b1: "\<not> bad_value 4300 ''cache 4096\<newline>''" by code_simp
  have b2: "\<not> bad_value 4300 ''rss 8192\<newline>''" by code_simp
  have b3: "\<not> bad_value 4300 ''shmem 0\<newline>''" by code_simp
  have all: "\<forall>l \<in> set (readlines (universal_newlines ?t)).
      \<not> bad_value (int_max_str_digits host_v1) l"
    using b1 b2 b3 by (simp only: ls lim) simp
  have r: "read_cgroup_stat_file host_v1 ?p =
      entries_of 4300 [''cache 4096\<newline>'', ''rss 8192\<newline>'', ''shmem 0\<newline>'']"
    using read_cgroup_stat_file_entries [of host_v1 ?p ?t] f all by (simp only: ls lim) simp
  have e: "entries_of 4300 [''cache 4096\<newline>'', ''rss 8192\<newline>'', ''shmem 0\<newline>''] ''rss'' = Some 8192"
    by code_simp
  have n: "files host_v1 ''/nowhere'' = None" by code_simp
  have m: "read_cgroup_stat_file host_v1 ''/nowhere'' ''rss'' = None"
    using read_cgroup_stat_file_entries [of host_v1 "''/nowhere''" "[]"] n by simp
  from f b1 b2 b3 r e n m show ?thesis by (intro conjI)
qed

text \<open>
  The claim as the specification words it fails: in this file the well-formed line
  \<open>rss 7\<close> stands after the line \<open>file x\<close>, and its key is not in the result.
\<close>

theorem read_cgroup_stat_file_all_lines_counterexample:
  "entries_of 4300
     (readlines (universal_newlines ''anon 5\<newline>total\<newline>file x\<newline>rss 7\<newline>'')) ''rss'' = Some 7 \<and>
   read_cgroup_stat_file host_bad_stat ''/sys/fs/cgroup/memory/docker/c1/memory.stat'' ''rss''
     = None"
  by code_simp

text \<open>
  Claim C5. \<open>read_cgroup_file\<close> returns the integer of the trimmed content when that
  content is a decimal numeral (any numeral of up to 640 digits, so any unsigned 64-bit
  value, and any longer numeral within the interpreter's limit for conversions); it returns
  the absent value when the trimmed content is \<open>max\<close>, when it is empty, when \<open>int\<close>
  rejects it, and when the file is missing, is a directory or cannot be opened. Every
  exception raised in the body of its \<open>try\<close> becomes the absent value: the function is
  total and never raises to its caller.
\<close>

theorem read_cgroup_file_absorbs:
  "(files h path = Some (Regular text) \<and> py_strip (universal_newlines text) = decimal n \<and>
      (length (decimal n) \<le> 640 \<or> int_max_str_digits h = 0 \<or>
       length (decimal n) \<le> int_max_str_digits h) \<longrightarrow>
      read_cgroup_file h path = Some (int n)) \<and>
   (files h path = Some (Regular text) \<and> py_strip (universal_newlines text) = decimal n \<and>
      n < 2 ^ 64 \<longrightarrow>
      read_cgroup_file h path = Some (int n)) \<and>
   (files h path = Some (Regular text) \<and> py_strip (universal_newlines text) = ''max'' \<longrightarrow>
      read_cgroup_file h path = None) \<and>
   (files h path = Some (Regular text) \<and> py_strip (universal_newlines text) = [] \<longrightarrow>
      read_cgroup_file h path = None) \<and>
   (files h path = Some (Regular text) \<and> py_strip (universal_newlines text) \<noteq> ''max'' \<longrightarrow>
      read_cgroup_file h path =
        (case py_int (int_max_str_digits h) (py_strip (universal_newlines text)) of
           Inl e \<Rightarrow> None
         | Inr v \<Rightarrow> Some v)) \<and>
   (files h path = None \<or> files h path = Some Directory \<or> files h path = Some Denied \<longrightarrow>
      read_cgroup_file h path = None) \<and>
   (\<forall>e. read_cgroup_file_try h path = Inl e \<longrightarrow> read_cgroup_file h path = None)"
proof (intro conjI impI allI)
  assume a: "files h path = Some (Regular text) \<and>
    py_strip (universal_newlines text) = decimal n \<and>
    (length (decimal n) \<le> 640 \<or> int_max_str_digits h = 0 \<or>
     length (decimal n) \<le> int_max_str_digits h)"
  then have "py_int (int_max_str_digits h) (decimal n) = Inr (int n)"
    by (intro py_int_decimal) simp
  moreover have "decimal n \<noteq> ''max''"
    using decimal_digits [of "CHR ''m''" n] by (auto simp: is_digit_def)
  ultimately show "read_cgroup_file h path = Some (int n)"
    using a by (simp add: read_cgroup_file_Regular)
next
  assume a: "files h path = Some (Regular text) \<and>
    py_strip (universal_newlines text) = decimal n \<and> n < 2 ^ 64"
  have "(2::nat) ^ 64 \<le> 10 ^ 640"
    using power_mono [of "2::nat" 10 64] power_increasing [of 64 640 "10::nat"] by simp
  with a have "n < 10 ^ 640" by simp
  then have "length (decimal n) \<le> 640" by (rule length_decimal) simp
  then have "py_int (int_max_str_digits h) (decimal n) = Inr (int n)"
    by (intro py_int_decimal) simp
  moreover have "decimal n \<noteq> ''max''"
    using decimal_digits [of "CHR ''m''" n] by (auto simp: is_digit_def)
  ultimately show "read_cgroup_file h path = Some (int n)"
    using a by (simp add: read_cgroup_file_Regular)
next
  assume "files h path = Some (Regular text) \<and> py_strip (universal_newlines text) = ''max''"
  then show "read_cgroup_file h path = None" by (simp add: read_cgroup_file_Regular)
next
  assume "files h path = Some (Regular text) \<and> py_strip (universal_newlines text) = []"
  moreover have "py_int (int_max_str_digits h) [] = Inl ValueError"
    by (simp add: py_int_def py_strip_def)
  ultimately show "read_cgroup_file h path = None"
    by (simp add: read_cgroup_file_Regular)
next
  assume "files h path = Some (Regular text) \<and> py_strip (universal_newlines text) \<noteq> ''max''"
  then show "read_cgroup_file h path =
      (case py_int (int_max_str_digits h) (py_strip (universal_newlines text)) of
         Inl e \<Rightarrow> None
       | Inr v \<Rightarrow> Some v)"
    by (simp add: read_cgroup_file_Regular)
next
  assume "files h path = None \<or> files h path = Some Directory \<or> files h path = Some Denied"
  then show "read_cgroup_file h path = None" by (rule read_cgroup_file_unreadable)
next
  fix e
  assume "read_cgroup_file_try h path = Inl e"
  then show "read_cgroup_file h path = None" by (simp add: read_cgroup_file_def)
qed

text \<open>
  Claim C10. \<open>read_cgroup_file\<close> accepts a signed numeral: on a file whose content is
  \<open>-5\<close> it returns the present value \<open>-5\<close>, which is negative.
\<close>

theorem read_cgroup_file_signed:
  "read_cgroup_file (h\<lparr>files := (files h)(path \<mapsto> Regular ''-5'')\<rparr>) path = Some (- 5) \<and>
   \<not> nonneg_field (read_cgroup_file (h\<lparr>files := (files h)(path \<mapsto> Regular ''-5'')\<rparr>) path)"
proof -
  have s: "py_strip ''-5'' = ''-5''" by code_simp
  have "py_int lim ''-5'' = Inr (- 5)" for lim
    by (simp add: py_int_def s is_digit_def digit_value_def)
  then have "read_cgroup_file (h\<lparr>files := (files h)(path \<mapsto> Regular ''-5'')\<rparr>) path = Some (- 5)"
    by (simp add: read_cgroup_file_Regular s)
  then show ?thesis by (simp add: nonneg_field_def)
qed

text \<open>
  Claim C6. \<open>get_cgroup_version\<close> returns 2 exactly when
  \<open>/sys/fs/cgroup/cgroup.controllers\<close> exists and 1 exactly when it does not; it returns
  no other value, and its result depends on the host only through the existence of that
  path. (Logging is not modelled; the function does not change the host.)
\<close>

theorem get_cgroup_version_probe:
  "(get_cgroup_version h = 2) = (files h ''/sys/fs/cgroup/cgroup.controllers'' \<noteq> None) \<and>
   (get_cgroup_version h = 1) = (files h ''/sys/fs/cgroup/cgroup.controllers'' = None) \<and>
   (get_cgroup_version h = 1 \<or> get_cgroup_version h = 2) \<and>
   (files h ''/sys/fs/cgroup/cgroup.controllers'' = files h' ''/sys/fs/cgroup/cgroup.controllers''
      \<longrightarrow> get_cgroup_version h = get_cgroup_version h')"
  by (simp add: get_cgroup_version_def os_path_exists_def)

theorem get_cgroup_version_probe_witness:
  "get_cgroup_version host_v2 = 2 \<and>
   files host_v2 ''/sys/fs/cgroup/cgroup.controllers'' \<noteq> None \<and>
   get_cgroup_version host_v1 = 1 \<and>
   files host_v1 ''/sys/fs/cgroup/cgroup.controllers'' = None \<and>
   files host_v1 ''/sys/fs/cgroup/cgroup.controllers'' =
     files host_v1_race ''/sys/fs/cgroup/cgroup.controllers'' \<and>
   get_cgroup_version host_v1 = get_cgroup_version host_v1_race"
proof -
  let ?p = "''/sys/fs/cgroup/cgroup.controllers''"
  have f2: "files host_v2 ?p \<noteq> None" by code_simp
  have f1: "files host_v1 ?p = None" by code_simp
  have eq: "files host_v1 ?p = files host_v1_race ?p" by code_simp
  have v2: "get_cgroup_version host_v2 = 2"
    using get_cgroup_version_probe [of host_v2 host_v2] f2 by simp
  have v1: "get_cgroup_version host_v1 = 1"
    using get_cgroup_version_probe [of host_v1 host_v1] f1 by simp
  have same: "get_cgroup_version host_v1 = get_cgroup_version host_v1_race"
    using get_cgroup_version_probe [of host_v1 host_v1_race] eq by blast
  from v2 f2 v1 f1 eq same show ?thesis by (intro conjI)
qed

text \<open>
  Claim C9. When a line of the stat file has exactly two tokens and its value is not an
  integer literal, and no earlier line is of that kind, \<open>read_cgroup_stat_file\<close> returns
  the entries of the lines before it only: the lines after it do not contribute, and a key
  that no well-formed line before it carries is absent from the result.
\<close>

theorem read_cgroup_stat_file_stops:
  assumes "files h path = Some (Regular text)"
    and "readlines (universal_newlines text) = pre @ bad # post"
    and "\<forall>l \<in> set pre. \<not> bad_value (int_max_str_digits h) l"
    and "bad_value (int_max_str_digits h) bad"
  shows "read_cgroup_stat_file h path = entries_of (int_max_str_digits h) pre \<and>
    (\<forall>k. (\<forall>l \<in> set pre. \<forall>v. line_entry (int_max_str_digits h) l \<noteq> Some (k, v)) \<longrightarrow>
       read_cgroup_stat_file h path k = None)"
proof -
  have r: "read_cgroup_stat_file h path = entries_of (int_max_str_digits h) pre"
    by (simp only: read_cgroup_stat_file_Regular [OF assms(1)] assms(2)
        stat_lines_bad [OF assms(3,4)] fst_conv empty_map_add)
  have "read_cgroup_stat_file h path k = None"
    if "\<forall>l \<in> set pre. \<forall>v. line_entry (int_max_str_digits h) l \<noteq> Some (k, v)" for k
  proof (cases "entries_of (int_max_str_digits h) pre k")
    case None
    with r show ?thesis by simp
  next
    case (Some v)
    then obtain l where "l \<in> set pre" and "line_entry (int_max_str_digits h) l = Some (k, v)"
      using entries_of_SomeD by blast
    with that show ?thesis by blast
  qed
  with r show ?thesis by blast
qed

theorem read_cgroup_stat_file_stops_witness:
  "files host_bad_stat ''/sys/fs/cgroup/memory/docker/c1/memory.stat'' =
     Some (Regular ''anon 5\<newline>total\<newline>file x\<newline>rss 7\<newline>'') \<and>
   readlines (universal_newlines ''anon 5\<newline>total\<newline>file x\<newline>rss 7\<newline>'') =
     [''anon 5\<newline>'', ''total\<newline>''] @ ''file x\<newline>'' # [''rss 7\<newline>''] \<and>
   \<not> bad_value 4300 ''anon 5\<newline>'' \<and> \<not> bad_value 4300 ''total\<newline>'' \<and>
   bad_value 4300 ''file x\<newline>'' \<and>
   line_entry 4300 ''rss 7\<newline>'' = Some (''rss'', 7) \<and>
   read_cgroup_stat_file host_bad_stat ''/sys/fs/cgroup/memory/docker/c1/memory.stat'' =
     entries_of 4300 [''anon 5\<newline>'', ''total\<newline>''] \<and>
   read_cgroup_stat_file host_bad_stat ''/sys/fs/cgroup/memory/docker/c1/memory.stat'' ''anon'' =
     Some 5 \<and>
   read_cgroup_stat_file host_bad_stat ''/sys/fs/cgroup/memory/docker/c1/memory.stat'' ''rss'' =
     None"
proof -
  let ?p = "''/sys/fs/cgroup/memory/docker/c1/memory.stat''"
  let ?t = "''anon 5\<newline>total\<newline>file x\<newline>rss 7\<newline>''"
  let ?pre = "[''anon 5\<newline>'', ''total\<newline>'']"
  have f: "files host_bad_stat ?p = Some (Regular ?t)" by code_simp
  have lim: "int_max_str_digits host_bad_stat = 4300" by (simp add: host_bad_stat_def)
  have ls: "readlines (universal_newlines ?t) = ?pre @ ''file x\<newline>'' # [''rss 7\<newline>'']"
    by code_simp
  have b1: "\<not> bad_value 4300 ''anon 5\<newline>''" by code_simp
  have b2: "\<not> bad_value 4300 ''total\<newline>''" by code_simp
  have b3: "bad_value 4300 ''file x\<newline>''" by code_simp
  have e4: "line_entry 4300 ''rss 7\<newline>'' = Some (''rss'', 7)" by code_simp
  have e1: "line_entry 4300 ''anon 5\<newline>'' = Some (''anon'', 5)" by code_simp
  have e2: "line_entry 4300 ''total\<newline>'' = None" by code_simp
  have pre: "\<forall>l \<in> set ?pre. \<not> bad_value (int_max_str_digits host_bad_stat) l"
    using b1 b2 by (simp add: lim)
  have bad: "bad_value (int_max_str_digits host_bad_stat) ''file x\<newline>''"
    using b3 by (simp add: lim)
  note stops = read_cgroup_stat_file_stops [OF f ls pre bad, unfolded lim]
  from stops have r: "read_cgroup_stat_file host_bad_stat ?p = entries_of 4300 ?pre" by blast
  have "\<forall>l \<in> set ?pre. \<forall>v. line_entry 4300 l \<noteq> Some (''rss'', v)"
    using e1 e2 by simp
  with stops have n: "read_cgroup_stat_file host_bad_stat ?p ''rss'' = None" by blast
  have "entries_of 4300 ?pre ''anon'' = Some 5" by code_simp
  with r have a: "read_cgroup_stat_file host_bad_stat ?p ''anon'' = Some 5" by simp
  from f ls b1 b2 b3 e4 r a n show ?thesis by (intro conjI)
qed

end
